theory Spec2Isabelle
  imports Complex_Main
begin

unbundle bit_operations_syntax

section \<open>LiveBicepCounter: pose angle and repetition counting\<close>

text \<open>
  A shallow embedding of \<^verbatim>\<open>poseestimationmodule.py\<close> (the method
  \<^verbatim>\<open>poseDetector.findAngle\<close>) and of the body of the \<^verbatim>\<open>while True\<close> loop of
  \<^verbatim>\<open>main\<close> in \<^verbatim>\<open>bicepApp.py\<close>.

  Numbers. Pixel coordinates and landmark ids are Python integers (\<open>int\<close>). The angle,
  the percentage, the repetition count and the clock are IEEE double values in the
  program. The tracker, the remap and \<open>findAngle\<close> are first read in exact arithmetic
  (\<open>real\<close>, with \<^verbatim>\<open>math.atan2\<close>, \<^verbatim>\<open>math.degrees\<close> and the arithmetic of
  \<^verbatim>\<open>np.interp\<close> exact). Lines 108 to 111 of \<open>findAngle\<close> are read a second time with
  the rounding of double precision (\<open>angle_f64\<close>), because the upper end of the range of
  the angle depends on it.
\<close>

subsection \<open>Python errors and list indexing\<close>

datatype py_error = IndexError | ZeroDivisionError

text \<open>\<^verbatim>\<open>xs[i]\<close> on a Python list: an index below zero is taken from the end, and an
  index outside \<open>-len \<dots> len - 1\<close> raises \<^verbatim>\<open>IndexError\<close>.\<close>

definition getitem :: "'a list \<Rightarrow> int \<Rightarrow> py_error + 'a" where
  "getitem xs i =
     (if 0 \<le> i \<and> i < int (length xs) then Inr (xs ! nat i)
      else if i < 0 \<and> - int (length xs) \<le> i then Inr (xs ! nat (int (length xs) + i))
      else Inl IndexError)"

text \<open>\<^verbatim>\<open>int(x)\<close> on a float: truncation towards zero.\<close>

definition py_int :: "real \<Rightarrow> int" where
  "py_int x = (if x < 0 then \<lceil>x\<rceil> else \<lfloor>x\<rfloor>)"

subsection \<open>The library functions the program calls\<close>

text \<open>\<^verbatim>\<open>math.atan2(y, x)\<close>: the angle of the point \<open>(x, y)\<close>, in \<open>(-\<pi>, \<pi>]\<close>, and
  \<open>0\<close> at the origin. (The arguments are differences of integers, so no negative
  zero reaches it.)\<close>

definition atan2 :: "real \<Rightarrow> real \<Rightarrow> real" where
  "atan2 y x =
     (if 0 < x then arctan (y / x)
      else if x < 0 then (if 0 \<le> y then arctan (y / x) + pi else arctan (y / x) - pi)
      else if 0 < y then pi / 2
      else if y < 0 then - (pi / 2)
      else 0)"

text \<open>\<^verbatim>\<open>math.degrees(x)\<close>.\<close>

definition degrees :: "real \<Rightarrow> real" where
  "degrees x = x * (180 / pi)"

text \<open>\<^verbatim>\<open>np.interp(x, xp, fp)\<close> of NumPy, for a scalar \<open>x\<close> and increasing sample points
  \<open>xp\<close> with values \<open>fp\<close>, with the default \<^verbatim>\<open>left\<close> and \<^verbatim>\<open>right\<close>: below the first
  sample point the result is the first value, above the last sample point it is the last
  value, at a sample point it is that point's value, and between two neighbouring sample
  points it is \<open>slope * (x - xp[j]) + fp[j]\<close>. The function \<open>interp_from\<close> walks the
  segments from the left; it is entered with \<open>x\<close> not below the first sample point.\<close>

fun interp_from :: "real \<Rightarrow> (real \<times> real) list \<Rightarrow> real" where
  "interp_from x [] = 0"
| "interp_from x [(x0, f0)] = f0"
| "interp_from x ((x0, f0) # (x1, f1) # ps) =
     (if x = x0 then f0
      else if x < x1 then ((f1 - f0) / (x1 - x0)) * (x - x0) + f0
      else interp_from x ((x1, f1) # ps))"

definition interp :: "real \<Rightarrow> real list \<Rightarrow> real list \<Rightarrow> real" where
  "interp x xp fp =
     (if x < hd xp then hd fp
      else if last xp < x then last fp
      else interp_from x (zip xp fp))"

subsection \<open>\<^verbatim>\<open>poseDetector.findAngle\<close>\<close>

text \<open>A landmark is the list \<^verbatim>\<open>[id, cx, cy]\<close> that \<^verbatim>\<open>findPosition\<close> appends.\<close>

type_synonym landmark = "int \<times> int \<times> int"

type_synonym point = "int \<times> int"

type_synonym colour = "int \<times> int \<times> int"

text \<open>The image is seen through what is drawn on it: the OpenCV calls, in order. The
  text of \<^verbatim>\<open>putText\<close> is \<^verbatim>\<open>str(int(angle))\<close>; the model keeps the integer.\<close>

datatype draw_cmd =
    Line point point colour int
  | Circle point int colour int
  | PutText int point colour int

type_synonym image = "draw_cmd list"

definition FILLED :: int where
  "FILLED = - 1"

text \<open>Lines 108 to 111: the directed angle at the vertex \<open>(x2, y2)\<close>.\<close>

definition angle_of :: "point \<Rightarrow> point \<Rightarrow> point \<Rightarrow> real" where
  "angle_of q1 q2 q3 =
     (case (q1, q2, q3) of ((x1, y1), (x2, y2), (x3, y3)) \<Rightarrow>
        let angle = degrees (atan2 (real_of_int (y3 - y2)) (real_of_int (x3 - x2))
                             - atan2 (real_of_int (y1 - y2)) (real_of_int (x1 - x2)))
        in if angle < 0 then angle + 360 else angle)"

text \<open>Lines 113 to 127: what \<^verbatim>\<open>draw=True\<close> adds to the image.\<close>

definition draw_angle :: "image \<Rightarrow> point \<Rightarrow> point \<Rightarrow> point \<Rightarrow> real \<Rightarrow> image" where
  "draw_angle img q1 q2 q3 angle =
     img @
     [Line q1 q2 (255, 255, 255) 3,
      Line q3 q2 (255, 255, 255) 3,
      Circle q1 10 (0, 0, 255) 2,
      Circle q1 5 (0, 0, 255) FILLED,
      Circle q2 10 (0, 0, 255) 2,
      Circle q2 5 (0, 0, 255) FILLED,
      Circle q3 10 (0, 0, 255) 2,
      Circle q3 5 (0, 0, 255) FILLED,
      PutText (py_int angle) (fst q2 - 50, snd q2 - 50) (0, 0, 255) 2]"

text \<open>\<^verbatim>\<open>findAngle(self, img, p1, p2, p3, draw)\<close>, with \<^verbatim>\<open>self.lmList\<close> passed as
  \<open>lmList\<close>. It returns the image as it is afterwards and the angle, or the
  \<^verbatim>\<open>IndexError\<close> of the first failing access.\<close>

definition findAngle ::
  "landmark list \<Rightarrow> image \<Rightarrow> int \<Rightarrow> int \<Rightarrow> int \<Rightarrow> bool \<Rightarrow> py_error + (image \<times> real)" where
  "findAngle lmList img p1 p2 p3 draw =
     (case getitem lmList p1 of Inl e \<Rightarrow> Inl e | Inr (_, x1, y1) \<Rightarrow>
      case getitem lmList p2 of Inl e \<Rightarrow> Inl e | Inr (_, x2, y2) \<Rightarrow>
      case getitem lmList p3 of Inl e \<Rightarrow> Inl e | Inr (_, x3, y3) \<Rightarrow>
        let angle = angle_of (x1, y1) (x2, y2) (x3, y3)
        in Inr (if draw then draw_angle img (x1, y1) (x2, y2) (x3, y3) angle else img,
                angle))"

text \<open>The angle calculator as the specification words it, on three points: the
  difference of the two \<open>atan2\<close> values in degrees, with 360 added when negative.\<close>

definition computeAngle :: "real \<times> real \<Rightarrow> real \<times> real \<Rightarrow> real \<times> real \<Rightarrow> real" where
  "computeAngle p1 p2 p3 =
     (let d = degrees (atan2 (snd p3 - snd p2) (fst p3 - fst p2)
                       - atan2 (snd p1 - snd p2) (fst p1 - fst p2))
      in if d < 0 then d + 360 else d)"

subsection \<open>Lines 108 to 111 in double precision\<close>










subsection \<open>The loop of \<^verbatim>\<open>main\<close>\<close>

text \<open>The variables that live across iterations: \<^verbatim>\<open>count\<close>, \<^verbatim>\<open>dir\<close> and
  \<^verbatim>\<open>ptime\<close>. \<^verbatim>\<open>dir\<close> is the integer flag of the source: 0 while extending, 1 while
  contracting.\<close>

record loop_state =
  count :: real
  dir :: int
  ptime :: real

definition EXTENDING :: int where
  "EXTENDING = 0"

definition CONTRACTING :: int where
  "CONTRACTING = 1"

text \<open>Lines 78 to 80.\<close>

definition init_state :: loop_state where
  "init_state = \<lparr>count = 0, dir = 0, ptime = 0\<rparr>"

text \<open>Lines 108 to 113: two \<^verbatim>\<open>if\<close> statements, one after the other.\<close>

definition update :: "loop_state \<Rightarrow> real \<Rightarrow> loop_state" where
  "update s per =
     (let s1 = (if per = 100 \<and> dir s = 0 then s\<lparr>count := count s + 0.5, dir := 1\<rparr> else s);
          s2 = (if per = 0 \<and> dir s1 = 1 then s1\<lparr>count := count s1 + 0.5, dir := 0\<rparr> else s1)
      in s2)"

text \<open>Lines 137 and 138.\<close>

definition reset :: "loop_state \<Rightarrow> loop_state" where
  "reset s = s\<lparr>count := 0, dir := 0\<rparr>"

text \<open>Line 100.\<close>

definition percentage :: "real \<Rightarrow> real" where
  "percentage angle = interp angle [210, 310] [0, 100]"

text \<open>What one iteration puts on the resized frame: the filled width of the progress
  bar (line 46), the two labels of lines 116 to 119 (absent when no landmark was found),
  and the FPS label.\<close>

definition primary_color :: colour where
  "primary_color = (255, 100, 100)"

definition secondary_color :: colour where
  "secondary_color = (100, 255, 100)"

record tracking_hud =
  filled_part :: int
  reps_label :: int
  per_label :: int
  per_color :: colour

record hud =
  tracking :: "tracking_hud option"
  fps_label :: int

text \<open>Line 46, in \<^verbatim>\<open>draw_progress_bar\<close>.\<close>

definition bar_filled_part :: "real \<Rightarrow> real \<Rightarrow> real \<Rightarrow> int" where
  "bar_filled_part val max_value sz = py_int ((val / max_value) * sz)"

text \<open>Lines 97 to 119, on the landmark list that \<^verbatim>\<open>findPosition\<close> returned.\<close>

definition track :: "loop_state \<Rightarrow> landmark list \<Rightarrow> image \<Rightarrow> py_error + (loop_state \<times> tracking_hud option)" where
  "track s lmList frame =
     (if length lmList \<noteq> 0 then
        (case findAngle lmList frame 12 14 16 False of
           Inl e \<Rightarrow> Inl e
         | Inr (_, angle) \<Rightarrow>
             let per = percentage angle;
                 progress_bar_fill = interp per [0, 100] [0, 540];
                 color = (if per \<le> 50 then primary_color else secondary_color);
                 s' = update s per
             in Inr (s', Some \<lparr>filled_part = bar_filled_part progress_bar_fill 540 540,
                                reps_label = py_int (count s'),
                                per_label = py_int per,
                                per_color = color\<rparr>))
      else Inr (s, None))"

text \<open>One iteration of the loop, lines 89 to 143. What \<^verbatim>\<open>cap.read()\<close> returned
  (the flag \<^verbatim>\<open>ret\<close>, and the landmark list found on the frame), the clock value
  \<^verbatim>\<open>time.time()\<close> and the results of the two \<^verbatim>\<open>cv2.waitKey(1)\<close> calls come from
  outside. The result is the new state, what was displayed (nothing when no frame was
  read), and whether the loop goes on.\<close>

definition loop_body ::
  "loop_state \<Rightarrow> bool \<Rightarrow> landmark list \<Rightarrow> image \<Rightarrow> real \<Rightarrow> int \<Rightarrow> int
     \<Rightarrow> py_error + (loop_state \<times> hud option \<times> bool)" where
  "loop_body s ret lmList frame ctime key1 key2 =
     (if ret then
        (case track s lmList frame of
           Inl e \<Rightarrow> Inl e
         | Inr (s1, t) \<Rightarrow>
             if ctime - ptime s1 = 0 then Inl ZeroDivisionError
             else
               let fps = 1 / (ctime - ptime s1);
                   s2 = s1\<lparr>ptime := ctime\<rparr>;
                   s3 = (if key1 AND 255 = 114 then reset s2 else s2)
               in Inr (s3, Some \<lparr>tracking = t, fps_label = py_int fps\<rparr>,
                       \<not> (key2 AND 255 = 113)))
      else Inr (s, None, False))"

text \<open>The states after each of a sequence of percentages.\<close>

fun progression :: "loop_state \<Rightarrow> real list \<Rightarrow> loop_state list" where
  "progression s [] = []"
| "progression s (p # ps) = update s p # progression (update s p) ps"

text \<open>A tracker session as a sequence of operations.\<close>

datatype tracker_op = Update real | Reset

fun apply_op :: "loop_state \<Rightarrow> tracker_op \<Rightarrow> loop_state" where
  "apply_op s (Update p) = update s p"
| "apply_op s Reset = reset s"

definition run :: "loop_state \<Rightarrow> tracker_op list \<Rightarrow> loop_state" where
  "run s ops = foldl apply_op s ops"

section \<open>The repetition tracker\<close>

lemma update_cases:
  "update s p =
     (if p = 100 \<and> dir s = 0 then s\<lparr>count := count s + 0.5, dir := 1\<rparr>
      else if p = 0 \<and> dir s = 1 then s\<lparr>count := count s + 0.5, dir := 0\<rparr>
      else s)"
  by (simp add: update_def Let_def)

lemma count_update_cases:
  "count (update s p) = count s \<or> count (update s p) = count s + 1 / 2"
  by (simp add: update_cases)

lemma count_update_mono: "count s \<le> count (update s p)"
  using count_update_cases [of s p] by auto

lemma run_snoc: "run s (ops @ [x]) = apply_op (run s ops) x"
  by (simp add: run_def)

lemma run_half_multiple: "\<exists>n::nat. count (run init_state ops) = real n / 2"
proof (induction ops rule: rev_induct)
  case Nil
  show ?case by (simp add: run_def init_state_def)
next
  case (snoc x ops)
  then obtain n :: nat where n: "count (run init_state ops) = real n / 2" by blast
  show ?case
  proof (cases x)
    case (Update p)
    have "count (update (run init_state ops) p) = real n / 2
          \<or> count (update (run init_state ops) p) = real (Suc n) / 2"
      using n count_update_cases [of "run init_state ops" p] by (auto simp: field_simps)
    then show ?thesis unfolding run_snoc Update apply_op.simps by blast
  next
    case Reset
    have "count (reset (run init_state ops)) = real 0 / 2" by (simp add: reset_def)
    then show ?thesis unfolding run_snoc Reset apply_op.simps by blast
  qed
qed

lemma run_dir: "dir (run init_state ops) = 0 \<or> dir (run init_state ops) = 1"
proof (induction ops rule: rev_induct)
  case Nil
  show ?case by (simp add: run_def init_state_def)
next
  case (snoc x ops)
  then show ?case
    by (cases x) (auto simp: run_snoc update_cases reset_def)
qed

lemma run_updates_mono:
  "Reset \<notin> set ops \<Longrightarrow> count s \<le> count (run s ops)"
proof (induction ops rule: rev_induct)
  case Nil
  show ?case by (simp add: run_def)
next
  case (snoc x ops)
  then have le: "count s \<le> count (run s ops)" and x: "x \<noteq> Reset" by auto
  from x obtain p where "x = Update p" by (cases x) auto
  then show ?case
    using le count_update_mono [of "run s ops" p] by (simp add: run_snoc)
qed

text \<open>
  Claim C1. For every state and every percentage \<open>p\<close>, \<open>update\<close> is exactly the
  three-way case distinction: at \<open>p = 100\<close> while extending the count grows by one half
  and the direction becomes contracting; at \<open>p = 0\<close> while contracting the count grows by
  one half and the direction becomes extending; for every other \<open>p\<close>, inside or outside
  \<open>[0, 100]\<close>, the state is unchanged. From the initial state the percentages
  \<open>50, 100, 50, 0\<close> give the counts \<open>0, 0.5, 0.5, 1\<close> and the directions extending,
  contracting, contracting, extending.
\<close>

theorem update_exact:
  "update s p =
     (if p = 100 \<and> dir s = EXTENDING
        then s\<lparr>count := count s + 0.5, dir := CONTRACTING\<rparr>
      else if p = 0 \<and> dir s = CONTRACTING
        then s\<lparr>count := count s + 0.5, dir := EXTENDING\<rparr>
      else s)
   \<and> map count (progression init_state [50, 100, 50, 0]) = [0, 0.5, 0.5, 1.0]
   \<and> map dir (progression init_state [50, 100, 50, 0])
       = [EXTENDING, CONTRACTING, CONTRACTING, EXTENDING]"
  by (simp add: update_cases EXTENDING_def CONTRACTING_def init_state_def)

theorem update_exact_witness:
  "update \<lparr>count = 3, dir = 1, ptime = 7\<rparr> 0 = \<lparr>count = 3.5, dir = 0, ptime = 7\<rparr>
   \<and> update \<lparr>count = 3, dir = 0, ptime = 7\<rparr> 100 = \<lparr>count = 3.5, dir = 1, ptime = 7\<rparr>
   \<and> update \<lparr>count = 3, dir = 0, ptime = 7\<rparr> 120 = \<lparr>count = 3, dir = 0, ptime = 7\<rparr>"
  using update_exact [of "\<lparr>count = 3, dir = 1, ptime = 7\<rparr>" 0]
        update_exact [of "\<lparr>count = 3, dir = 0, ptime = 7\<rparr>" 100]
        update_exact [of "\<lparr>count = 3, dir = 0, ptime = 7\<rparr>" 120]
  by (simp add: EXTENDING_def CONTRACTING_def)

text \<open>
  Claim C3. In every state \<open>s\<close> reached from the initial state by updates and resets:
  the count is a natural number of halves (so non-negative); the direction is extending
  or contracting; an update never lowers the count, nor does any further run without a
  reset, and a reset sets it to 0; an update changes the direction only at \<open>p = 100\<close>
  while extending or at \<open>p = 0\<close> while contracting; and an update with a percentage
  strictly between 0 and 100 changes nothing.
\<close>

theorem tracker_invariants:
  assumes "s = run init_state ops"
  shows "(\<exists>n::nat. count s = real n / 2)
       \<and> 0 \<le> count s
       \<and> (dir s = EXTENDING \<or> dir s = CONTRACTING)
       \<and> (\<forall>p. count s \<le> count (update s p))
       \<and> (\<forall>more. Reset \<notin> set more \<longrightarrow> count s \<le> count (run s more))
       \<and> count (reset s) = 0
       \<and> (\<forall>p. dir (update s p) \<noteq> dir s \<longrightarrow>
              (p = 100 \<and> dir s = EXTENDING) \<or> (p = 0 \<and> dir s = CONTRACTING))
       \<and> (\<forall>p. 0 < p \<and> p < 100 \<longrightarrow> update s p = s)"
proof -
  have a: "\<exists>n::nat. count s = real n / 2"
    using run_half_multiple [of ops] assms by simp
  then have a': "0 \<le> count s"
    by auto
  have b: "dir s = EXTENDING \<or> dir s = CONTRACTING"
    using run_dir [of ops] assms by (simp add: EXTENDING_def CONTRACTING_def)
  have c: "\<forall>p. count s \<le> count (update s p)"
    by (simp add: count_update_mono)
  have d: "\<forall>more. Reset \<notin> set more \<longrightarrow> count s \<le> count (run s more)"
    by (simp add: run_updates_mono)
  have e: "count (reset s) = 0"
    by (simp add: reset_def)
  have f: "\<forall>p. dir (update s p) \<noteq> dir s \<longrightarrow>
              (p = 100 \<and> dir s = EXTENDING) \<or> (p = 0 \<and> dir s = CONTRACTING)"
    by (simp add: update_cases EXTENDING_def CONTRACTING_def)
  have g: "\<forall>p. 0 < p \<and> p < 100 \<longrightarrow> update s p = s"
    by (simp add: update_cases)
  from a a' b c d e f g show ?thesis by blast
qed

theorem tracker_invariants_witness:
  "run init_state [Update 100, Update 30, Reset, Update 100, Update 0, Update 100]
     = \<lparr>count = 3 / 2, dir = 1, ptime = 0\<rparr>
   \<and> (\<exists>n::nat. (3 / 2 :: real) = real n / 2)
   \<and> Reset \<notin> set [Update 0, Update 100]
   \<and> (3 / 2 :: real) \<le> count (run \<lparr>count = 3 / 2, dir = 1, ptime = 0\<rparr> [Update 0, Update 100])
   \<and> dir (update \<lparr>count = 3 / 2, dir = 1, ptime = 0\<rparr> 0) \<noteq> dir \<lparr>count = 3 / 2, dir = 1, ptime = 0 :: real\<rparr>
   \<and> update \<lparr>count = 3 / 2, dir = 1, ptime = 0\<rparr> 40 = \<lparr>count = 3 / 2, dir = 1, ptime = 0\<rparr>"
proof -
  let ?ops = "[Update 100, Update 30, Reset, Update 100, Update 0, Update 100]"
  let ?s = "\<lparr>count = 3 / 2, dir = 1, ptime = 0\<rparr> :: loop_state"
  have v: "?s = run init_state ?ops"
    by (simp add: run_def init_state_def update_cases reset_def)
  note t = tracker_invariants [OF v]
  have r: "Reset \<notin> set [Update 0, Update 100]" by simp
  have p: "(0::real) < 40 \<and> (40::real) < 100" by simp
  have d: "dir (update ?s 0) \<noteq> dir ?s" by (simp add: update_cases)
  have n: "\<exists>n::nat. (3 / 2 :: real) = real n / 2"
    using t by simp
  have m: "count ?s \<le> count (run ?s [Update 0, Update 100])"
    using t r by blast
  have u: "update ?s 40 = ?s"
    using t p by blast
  show ?thesis
    using v [symmetric] r d n m u by simp
qed

text \<open>
  Claim C6. Whatever the state before, \<open>reset\<close> gives count 0 and direction
  extending and leaves the rest of the state (\<open>ptime\<close>) as it was; in the loop, an
  iteration on a frame whose first key poll reads \<open>r\<close> ends with count 0 and direction
  extending.
\<close>

theorem reset_effect:
  "reset s = s\<lparr>count := 0, dir := EXTENDING\<rparr>
   \<and> count (reset s) = 0 \<and> dir (reset s) = EXTENDING \<and> ptime (reset s) = ptime s
   \<and> (loop_body s True lmList frame ctime key1 key2 = Inr (s', h, go) \<and> key1 AND 255 = 114
        \<longrightarrow> s' = \<lparr>count = 0, dir = EXTENDING, ptime = ctime\<rparr>)"
  by (auto simp: reset_def EXTENDING_def loop_body_def Let_def split: sum.splits if_splits)

theorem reset_effect_witness:
  "loop_body \<lparr>count = 7 / 2, dir = 1, ptime = 10\<rparr> True [] [] 11 114 (- 1)
     = Inr (\<lparr>count = 0, dir = 0, ptime = 11\<rparr>, Some \<lparr>tracking = None, fps_label = 1\<rparr>, True)
   \<and> (114 :: int) AND 255 = 114
   \<and> \<lparr>count = 0, dir = 0, ptime = 11\<rparr> = \<lparr>count = 0, dir = EXTENDING, ptime = 11 :: real\<rparr>"
proof -
  have run: "loop_body \<lparr>count = 7 / 2, dir = 1, ptime = 10\<rparr> True [] [] 11 114 (- 1)
     = Inr (\<lparr>count = 0, dir = 0, ptime = 11\<rparr>, Some \<lparr>tracking = None, fps_label = 1\<rparr>, True)"
    by (simp add: loop_body_def track_def py_int_def reset_def)
  have key: "(114 :: int) AND 255 = 114" by simp
  show ?thesis
    using run key
      reset_effect [where s = "\<lparr>count = 7 / 2, dir = 1, ptime = 10\<rparr>" and lmList = "[]"
        and frame = "[]" and ctime = 11 and ?key1.0 = 114 and ?key2.0 = "- 1"
        and s' = "\<lparr>count = 0, dir = 0, ptime = 11\<rparr>"
        and h = "Some \<lparr>tracking = None, fps_label = 1\<rparr>" and go = True]
    by simp
qed

text \<open>
  Claim C7. A frame whose landmark list is empty runs neither the angle computation nor
  the tracker update: lines 97 to 119 return the state as it was and draw no tracking
  label (the call of \<open>findAngle\<close> on the empty list, had it been made, would have
  raised), and after the whole iteration, when no reset key is read, count and direction
  are those before it.
\<close>

theorem empty_frame_no_update:
  "track s [] frame = Inr (s, None)
   \<and> findAngle [] frame 12 14 16 False = Inl IndexError
   \<and> (loop_body s ret [] frame ctime key1 key2 = Inr (s', h, go) \<and> key1 AND 255 \<noteq> 114
        \<longrightarrow> count s' = count s \<and> dir s' = dir s)"
  by (auto simp: track_def loop_body_def findAngle_def getitem_def Let_def split: if_splits)

theorem empty_frame_no_update_witness:
  "loop_body \<lparr>count = 7 / 2, dir = 1, ptime = 10\<rparr> True [] [] 11 (- 1) (- 1)
     = Inr (\<lparr>count = 7 / 2, dir = 1, ptime = 11\<rparr>, Some \<lparr>tracking = None, fps_label = 1\<rparr>, True)
   \<and> (- 1 :: int) AND 255 \<noteq> 114
   \<and> count \<lparr>count = 7 / 2, dir = 1, ptime = 11 :: real\<rparr>
       = count \<lparr>count = 7 / 2, dir = 1, ptime = 10 :: real\<rparr>"
proof -
  have run: "loop_body \<lparr>count = 7 / 2, dir = 1, ptime = 10\<rparr> True [] [] 11 (- 1) (- 1)
     = Inr (\<lparr>count = 7 / 2, dir = 1, ptime = 11\<rparr>, Some \<lparr>tracking = None, fps_label = 1\<rparr>, True)"
    by (simp add: loop_body_def track_def py_int_def)
  have key: "(- 1 :: int) AND 255 \<noteq> 114" by simp
  show ?thesis
    using run key
      empty_frame_no_update [where s = "\<lparr>count = 7 / 2, dir = 1, ptime = 10\<rparr>"
        and ret = True and frame = "[]" and ctime = 11 and ?key1.0 = "- 1" and ?key2.0 = "- 1"
        and s' = "\<lparr>count = 7 / 2, dir = 1, ptime = 11\<rparr>"
        and h = "Some \<lparr>tracking = None, fps_label = 1\<rparr>" and go = True]
    by simp
qed

text \<open>
  Claim C8. Two updates at percentage 100 in a row equal one: from an extending state
  the first adds one half to the count and makes the direction contracting, and the
  second changes nothing, so the count has grown by exactly one half.
\<close>

theorem update_100_twice:
  "update (update s 100) 100 = update s 100
   \<and> (dir s = EXTENDING \<longrightarrow>
        count (update s 100) = count s + 0.5
        \<and> dir (update s 100) = CONTRACTING
        \<and> count (update (update s 100) 100) = count s + 0.5
        \<and> dir (update (update s 100) 100) = CONTRACTING)"
  by (simp add: update_cases EXTENDING_def CONTRACTING_def)

theorem update_100_twice_witness:
  "dir \<lparr>count = 4, dir = 0, ptime = 2 :: real\<rparr> = EXTENDING
   \<and> update (update \<lparr>count = 4, dir = 0, ptime = 2\<rparr> 100) 100 = \<lparr>count = 4.5, dir = 1, ptime = 2\<rparr>"
proof -
  have h: "dir \<lparr>count = 4, dir = 0, ptime = 2 :: real\<rparr> = EXTENDING"
    by (simp add: EXTENDING_def)
  have "update \<lparr>count = 4, dir = 0, ptime = 2\<rparr> 100 = \<lparr>count = 4.5, dir = 1, ptime = 2\<rparr>"
    by (simp add: update_cases)
  then show ?thesis
    using h update_100_twice [of "\<lparr>count = 4, dir = 0, ptime = 2\<rparr>"] by simp
qed

section \<open>The remap of the angle to a percentage\<close>

text \<open>
  Claim C2 says that the percentage is \<open>(a - 210) / (310 - 210) * 100\<close> for every angle,
  extrapolated below 210 and above 310. The code calls \<^verbatim>\<open>np.interp\<close>, which returns the
  first value below the first sample point and the last value above the last: at the angle
  200 the percentage is 0, not -10, and at 400 it is 100, not 190.
\<close>

theorem percentage_extrapolation_counterexample:
  "percentage 200 = 0 \<and> (200 - 210) / (310 - 210) * 100 = (- 10 :: real)
   \<and> percentage 400 = 100 \<and> (400 - 210) / (310 - 210) * 100 = (190 :: real)"
  by (simp add: percentage_def interp_def)

text \<open>
  Claim C2, amended. The percentage is \<open>(a - 210) / (310 - 210) * 100\<close> for every angle
  from 210 to 310; it is 0 for every angle below 210 and 100 for every angle above 310
  (clamped, not extrapolated).
\<close>

theorem percentage_clamped:
  "percentage a =
     (if a < 210 then 0 else if 310 < a then 100 else (a - 210) / (310 - 210) * 100)"
  by (simp add: percentage_def interp_def)

theorem percentage_clamped_witness:
  "percentage 250 = 40 \<and> percentage 205 = 0 \<and> percentage 360 = 100"
  using percentage_clamped [of 250] percentage_clamped [of 205] percentage_clamped [of 360]
  by simp

section \<open>The joint angle\<close>





lemma findAngle_Inr:
  assumes "getitem lmList p1 = Inr (i1, x1, y1)"
      and "getitem lmList p2 = Inr (i2, x2, y2)"
      and "getitem lmList p3 = Inr (i3, x3, y3)"
  shows "findAngle lmList img p1 p2 p3 draw =
           Inr (if draw then draw_angle img (x1, y1) (x2, y2) (x3, y3)
                               (angle_of (x1, y1) (x2, y2) (x3, y3)) else img,
                angle_of (x1, y1) (x2, y2) (x3, y3))"
  using assms by (simp add: findAngle_def Let_def)

lemma angle_of_computeAngle:
  "angle_of (x1, y1) (x2, y2) (x3, y3) =
     computeAngle (real_of_int x1, real_of_int y1) (real_of_int x2, real_of_int y2)
                  (real_of_int x3, real_of_int y3)"
  by (simp add: angle_of_def computeAngle_def Let_def)

lemma getitem_Inr_iff:
  "(\<exists>v. getitem xs i = Inr v) \<longleftrightarrow> - int (length xs) \<le> i \<and> i < int (length xs)"
  by (auto simp: getitem_def)

lemma getitem_Inl:
  "getitem xs i = Inl e \<Longrightarrow> e = IndexError \<and> \<not> (- int (length xs) \<le> i \<and> i < int (length xs))"
  by (auto simp: getitem_def split: if_splits)

lemma findAngle_Inr_iff:
  "(\<exists>r. findAngle lmList img p1 p2 p3 draw = Inr r) \<longleftrightarrow>
     (\<forall>p \<in> {p1, p2, p3}. - int (length lmList) \<le> p \<and> p < int (length lmList))"
proof
  assume "\<exists>r. findAngle lmList img p1 p2 p3 draw = Inr r"
  then have "(\<exists>v. getitem lmList p1 = Inr v) \<and> (\<exists>v. getitem lmList p2 = Inr v)
             \<and> (\<exists>v. getitem lmList p3 = Inr v)"
    by (auto simp: findAngle_def split: sum.splits)
  then show "\<forall>p \<in> {p1, p2, p3}. - int (length lmList) \<le> p \<and> p < int (length lmList)"
    using getitem_Inr_iff [of lmList] by blast
next
  assume "\<forall>p \<in> {p1, p2, p3}. - int (length lmList) \<le> p \<and> p < int (length lmList)"
  then have "(\<exists>v. getitem lmList p1 = Inr v) \<and> (\<exists>v. getitem lmList p2 = Inr v)
             \<and> (\<exists>v. getitem lmList p3 = Inr v)"
    using getitem_Inr_iff [of lmList] by blast
  then obtain i1 x1 y1 i2 x2 y2 i3 x3 y3 where
    "getitem lmList p1 = Inr (i1, x1, y1)" "getitem lmList p2 = Inr (i2, x2, y2)"
    "getitem lmList p3 = Inr (i3, x3, y3)"
    by (metis prod_cases3)
  then show "\<exists>r. findAngle lmList img p1 p2 p3 draw = Inr r"
    by (simp add: findAngle_Inr)
qed

lemma findAngle_Inl:
  "findAngle lmList img p1 p2 p3 draw = Inl e \<Longrightarrow> e = IndexError"
  by (auto simp: findAngle_def Let_def split: sum.splits prod.splits dest: getitem_Inl)


text \<open>
  Claim C4. When the three accesses succeed, the angle that \<open>findAngle\<close> returns is the
  specification's \<open>computeAngle\<close> of the three points: the degrees of
  \<open>atan2 (y3 - y2) (x3 - x2) - atan2 (y1 - y2) (x1 - x2)\<close>, plus 360 when that is
  negative. For the points \<open>(100, 0)\<close>, \<open>(0, 0)\<close>, \<open>(0, -100)\<close> it is 270.
\<close>

theorem findAngle_formula:
  "(getitem lmList p1 = Inr (i1, x1, y1) \<and> getitem lmList p2 = Inr (i2, x2, y2)
      \<and> getitem lmList p3 = Inr (i3, x3, y3)
    \<longrightarrow> map_sum id snd (findAngle lmList img p1 p2 p3 draw)
          = Inr (computeAngle (real_of_int x1, real_of_int y1) (real_of_int x2, real_of_int y2)
                              (real_of_int x3, real_of_int y3))
        \<and> map_sum id snd (findAngle lmList img p1 p2 p3 draw)
          = Inr (let d = degrees (atan2 (real_of_int y3 - real_of_int y2)
                                        (real_of_int x3 - real_of_int x2)
                                  - atan2 (real_of_int y1 - real_of_int y2)
                                          (real_of_int x1 - real_of_int x2))
                 in if d < 0 then d + 360 else d))
   \<and> computeAngle (100, 0) (0, 0) (0, - 100) = 270
   \<and> findAngle [(0, 100, 0), (1, 0, 0), (2, 0, - 100)] img 0 1 2 False = Inr (img, 270)"
proof -
  have a: "computeAngle (100, 0) (0, 0) (0, - 100) = 270"
    by (simp add: computeAngle_def atan2_def degrees_def)
  have b: "findAngle [(0, 100, 0), (1, 0, 0), (2, 0, - 100)] img 0 1 2 False = Inr (img, 270)"
    by (simp add: findAngle_def getitem_def angle_of_def atan2_def degrees_def)
  have c: "map_sum id snd (findAngle lmList img p1 p2 p3 draw)
          = Inr (computeAngle (real_of_int x1, real_of_int y1) (real_of_int x2, real_of_int y2)
                              (real_of_int x3, real_of_int y3))"
    if "getitem lmList p1 = Inr (i1, x1, y1)" "getitem lmList p2 = Inr (i2, x2, y2)"
       "getitem lmList p3 = Inr (i3, x3, y3)"
    using that by (simp add: findAngle_Inr angle_of_computeAngle)
  have d: "computeAngle (real_of_int x1, real_of_int y1) (real_of_int x2, real_of_int y2)
                        (real_of_int x3, real_of_int y3)
           = (let d = degrees (atan2 (real_of_int y3 - real_of_int y2)
                                     (real_of_int x3 - real_of_int x2)
                               - atan2 (real_of_int y1 - real_of_int y2)
                                       (real_of_int x1 - real_of_int x2))
              in if d < 0 then d + 360 else d)"
    by (simp add: computeAngle_def)
  from a b c d show ?thesis by simp
qed

theorem findAngle_formula_witness:
  "getitem [(0, 3, 4), (1, 3, 1), (2, 7, 1 :: int)] 0 = Inr (0 :: int, 3 :: int, 4 :: int)
   \<and> getitem [(0, 3, 4), (1, 3, 1), (2, 7, 1 :: int)] 1 = Inr (1 :: int, 3 :: int, 1 :: int)
   \<and> getitem [(0, 3, 4), (1, 3, 1), (2, 7, 1 :: int)] 2 = Inr (2 :: int, 7 :: int, 1 :: int)
   \<and> map_sum id snd (findAngle [(0, 3, 4), (1, 3, 1), (2, 7, 1)] [] 0 1 2 True) = Inr 270"
proof -
  let ?lm = "[(0, 3, 4), (1, 3, 1), (2, 7, 1)] :: landmark list"
  have g: "getitem ?lm 0 = Inr (0, 3, 4) \<and> getitem ?lm 1 = Inr (1, 3, 1)
           \<and> getitem ?lm 2 = Inr (2, 7, 1)"
    by (simp add: getitem_def)
  have v: "computeAngle (3, 4) (3, 1) (7, 1) = 270"
    by (simp add: computeAngle_def atan2_def degrees_def)
  show ?thesis
    using g v
      findAngle_formula [where lmList = ?lm and ?p1.0 = 0 and ?p2.0 = 1 and ?p3.0 = 2
        and ?i1.0 = 0 and ?x1.0 = 3 and ?y1.0 = 4 and ?i2.0 = 1 and ?x2.0 = 3 and ?y2.0 = 1
        and ?i3.0 = 2 and ?x3.0 = 7 and ?y3.0 = 1 and img = "[]" and draw = True]
    by simp
qed

subsection \<open>The range of the angle\<close>





















text \<open>
  Claim C9. The result of \<open>findAngle\<close> without the image, that is the angle or the error,
  is the same with the draw flag set and with it cleared.
\<close>

theorem findAngle_draw_independent:
  "map_sum id snd (findAngle lmList img p1 p2 p3 True)
   = map_sum id snd (findAngle lmList img p1 p2 p3 False)"
  by (simp add: findAngle_def Let_def split: sum.splits prod.splits)

text \<open>
  Claim C10. \<open>findAngle\<close> indexes the landmark list at the given ids without a bounds
  check. The ids are landmark ids, the positions that \<^verbatim>\<open>enumerate\<close> gives in
  \<^verbatim>\<open>findPosition\<close>, so they are not negative: for every list that is longer than the
  largest of the three ids, the three accesses are in bounds and \<open>findAngle\<close> returns an
  angle, never \<^verbatim>\<open>IndexError\<close>. With the ids 12, 14, 16 of the loop the call succeeds
  exactly when the list has at least 17 entries, so the guard \<^verbatim>\<open>len(lmList) != 0\<close>
  makes it safe only for such lists: a shorter non-empty list raises \<^verbatim>\<open>IndexError\<close>.
  (In general the call succeeds exactly when every id lies in \<open>-len \<dots> len - 1\<close>.)
\<close>

theorem findAngle_in_bounds:
  "(0 \<le> p1 \<and> 0 \<le> p2 \<and> 0 \<le> p3 \<and> max p1 (max p2 p3) < int (length lmList) \<longrightarrow>
      (\<exists>v1 v2 v3. getitem lmList p1 = Inr v1 \<and> getitem lmList p2 = Inr v2
                   \<and> getitem lmList p3 = Inr v3)
      \<and> (\<exists>img' a. findAngle lmList img p1 p2 p3 draw = Inr (img', a)))
   \<and> ((\<exists>r. findAngle lmList img p1 p2 p3 draw = Inr r) \<longleftrightarrow>
      (\<forall>p \<in> {p1, p2, p3}. - int (length lmList) \<le> p \<and> p < int (length lmList)))
   \<and> ((\<nexists>r. findAngle lmList img p1 p2 p3 draw = Inr r) \<longrightarrow>
        findAngle lmList img p1 p2 p3 draw = Inl IndexError)
   \<and> ((\<exists>r. findAngle lmList img 12 14 16 draw = Inr r) \<longleftrightarrow> 17 \<le> length lmList)
   \<and> (17 \<le> length lmList \<longrightarrow> (\<exists>r. track s lmList frame = Inr r))
   \<and> (lmList \<noteq> [] \<and> length lmList < 17 \<longrightarrow> track s lmList frame = Inl IndexError)"
proof -
  note iff = findAngle_Inr_iff
  have a: "(\<nexists>r. findAngle lmList img p1 p2 p3 draw = Inr r) \<longrightarrow>
             findAngle lmList img p1 p2 p3 draw = Inl IndexError"
    by (cases "findAngle lmList img p1 p2 p3 draw") (auto dest: findAngle_Inl)
  have b: "(\<exists>v1 v2 v3. getitem lmList p1 = Inr v1 \<and> getitem lmList p2 = Inr v2
                        \<and> getitem lmList p3 = Inr v3)
           \<and> (\<exists>img' a. findAngle lmList img p1 p2 p3 draw = Inr (img', a))"
    if "0 \<le> p1 \<and> 0 \<le> p2 \<and> 0 \<le> p3 \<and> max p1 (max p2 p3) < int (length lmList)"
  proof -
    from that have r: "\<forall>p \<in> {p1, p2, p3}. - int (length lmList) \<le> p \<and> p < int (length lmList)"
      by auto
    then have "\<exists>r. findAngle lmList img p1 p2 p3 draw = Inr r"
      by (simp only: iff)
    moreover from r have "(\<exists>v. getitem lmList p1 = Inr v) \<and> (\<exists>v. getitem lmList p2 = Inr v)
                          \<and> (\<exists>v. getitem lmList p3 = Inr v)"
      using getitem_Inr_iff [of lmList] by blast
    ultimately show ?thesis by auto
  qed
  have c: "(\<exists>r. findAngle lmList i 12 14 16 d = Inr r) \<longleftrightarrow> 17 \<le> length lmList" for i d
    unfolding iff by auto
  have e: "\<exists>r. track s lmList frame = Inr r" if "17 \<le> length lmList"
  proof -
    from that c obtain i a where "findAngle lmList frame 12 14 16 False = Inr (i, a)"
      by (metis surj_pair)
    with that show ?thesis by (simp add: track_def Let_def)
  qed
  have f: "track s lmList frame = Inl IndexError" if "lmList \<noteq> [] \<and> length lmList < 17"
  proof -
    from that c have "\<nexists>r. findAngle lmList frame 12 14 16 False = Inr r"
      by simp
    then have "findAngle lmList frame 12 14 16 False = Inl IndexError"
      by (cases "findAngle lmList frame 12 14 16 False") (auto dest: findAngle_Inl)
    with that show ?thesis by (simp add: track_def)
  qed
  from iff [of lmList img p1 p2 p3 draw] a b c [of img draw] e f show ?thesis by blast
qed

theorem findAngle_in_bounds_witness:
  "(0 :: int) \<le> 12 \<and> (0 :: int) \<le> 14 \<and> (0 :: int) \<le> 16
   \<and> max 12 (max 14 16) < int (length (replicate 17 (0 :: int, 0 :: int, 0 :: int)))
   \<and> (\<exists>img' a. findAngle (replicate 17 (0, 0, 0)) [] 12 14 16 False = Inr (img', a))
   \<and> [(0 :: int, 0 :: int, 0 :: int)] \<noteq> [] \<and> length [(0 :: int, 0 :: int, 0 :: int)] < 17
   \<and> track init_state [(0, 0, 0)] [] = Inl IndexError"
proof -
  have h1: "(0 :: int) \<le> 12 \<and> (0 :: int) \<le> 14 \<and> (0 :: int) \<le> 16
            \<and> max 12 (max 14 16) < int (length (replicate 17 (0 :: int, 0 :: int, 0 :: int)))"
    by simp
  have h2: "[(0 :: int, 0 :: int, 0 :: int)] \<noteq> [] \<and> length [(0 :: int, 0 :: int, 0 :: int)] < 17"
    by simp
  have r1: "\<exists>img' a. findAngle (replicate 17 (0, 0, 0)) [] 12 14 16 False = Inr (img', a)"
    using h1 findAngle_in_bounds [where lmList = "replicate 17 (0, 0, 0)" and img = "[]"
        and ?p1.0 = 12 and ?p2.0 = 14 and ?p3.0 = 16 and draw = False]
    by blast
  have r2: "track init_state [(0, 0, 0)] [] = Inl IndexError"
    using h2 findAngle_in_bounds [where lmList = "[(0, 0, 0)]" and s = init_state and frame = "[]"]
    by blast
  from h1 h2 r1 r2 show ?thesis by blast
qed

end
